theory Spec2Isabelle
  imports Complex_Main
begin

section \<open>Types of the flights package and of the standard library\<close>

text \<open>
  Modelled from the spec: the type declarations of the flights package (cabin class, stop
  policy, trip type, currency, language, travelers, options, the two argument structs and
  the two offer structs) and of \<open>time.Time\<close> / \<open>time.Duration\<close> are not among the
  sources. They are written here with the fields of the spec's data model (query,
  candidate date pair, offer), under the names \<open>main.go\<close> reads and writes them by. Every
  enumeration gets a constructor for Go's zero value, which is what a field holds that no
  struct literal sets (the cabin class of \<open>baseArgs\<close>).

  An instant is an integer, \<open>time.Duration\<close> is a count of nanoseconds (Go's int64; the
  program only compares durations, so no arithmetic can overflow), and a price is a real
  number: the program only compares prices with \<open><\<close> and with \<open>0\<close>, and on
  prices that are numbers these comparisons are those of the reals.
\<close>

type_synonym Time = int
type_synonym Duration = int
type_synonym err = string

definition Hour :: Duration where
  "Hour = 3600000000000"

datatype Class = Class_unset | Economy | PremiumEconomy | Business | First
datatype Stops = Nonstop | Stop1 | Stop2 | AnyStops
datatype TripType = TripType_unset | RoundTrip | OneWay
datatype Currency = Currency_unset | USD
datatype Lang = Lang_unset | English

record Travelers =
  Adults :: int

record Options =
  Travelers :: Travelers
  Currency :: Currency
  Stops :: Stops
  Class :: Class
  TripType :: TripType
  Lang :: Lang

record Args =
  Date :: Time
  ReturnDate :: Time
  SrcCities :: "string list"
  DstCities :: "string list"
  Options :: Options

record PriceGraphArgs =
  RangeStartDate :: Time
  RangeEndDate :: Time
  TripLength :: int
  SrcCities :: "string list"
  DstCities :: "string list"
  Options :: Options

text \<open>\<open>FullOffer\<close> embeds \<open>Offer\<close>, as the record extension does.\<close>

record Offer =
  StartDate :: Time
  ReturnDate :: Time
  Price :: real

record FullOffer = Offer +
  FlightDuration :: Duration

text \<open>The zero value of \<open>flights.FullOffer\<close>: what \<open>var bestOffer flights.FullOffer\<close> holds.\<close>

definition zero_FullOffer :: FullOffer where
  "zero_FullOffer =
     \<lparr>StartDate = 0, Offer.ReturnDate = 0, Price = 0, FlightDuration = 0\<rparr>"

section \<open>Configuration and command line\<close>

text \<open>The struct \<open>Config\<close> of \<open>main.go\<close>; its two anonymous structs get a name each.\<close>

record Rules =
  BusinessMinHrs :: int
  PremiumMinHrs :: int

record Attendee =
  City :: string
  Travelers :: int

record Config =
  Rules :: Rules
  Attendees :: "Attendee list"

text \<open>The four variables the flag package fills in, with the defaults \<open>""\<close> and \<open>0\<close>.\<close>

record flags =
  destination :: string
  startDate :: string
  endDate :: string
  nights :: int

section \<open>The world outside the program\<close>

text \<open>
  Everything the program asks of its surroundings is a field of \<open>world\<close>: the file system,
  the YAML decoder, the clock and the calendar, and the session of the pricing service with
  its two operations. A call either fails with an error or returns its value.
\<close>

record world =
  os_Open :: "string \<Rightarrow> err + string"
  yaml_Decode :: "string \<Rightarrow> err + Config"
  flights_New :: "err + unit"
  time_Parse :: "string \<Rightarrow> string \<Rightarrow> err + Time"
  time_Now :: Time
  AddDate :: "Time \<Rightarrow> int \<Rightarrow> int \<Rightarrow> int \<Rightarrow> Time"
  GetOffers :: "Args \<Rightarrow> err + FullOffer list"
  GetPriceGraph :: "PriceGraphArgs \<Rightarrow> err + Offer list"

text \<open>
  What the program does to its surroundings, in the order it does it: opening a file,
  creating the session, the two service calls, and handing a query to a worker over the
  channel \<open>FlightRequirements\<close>.
\<close>

datatype event =
    Open string
  | New_session
  | Call_GetOffers Args
  | Call_GetPriceGraph PriceGraphArgs
  | Send PriceGraphArgs

text \<open>A line on standard output.\<close>

datatype line =
    Best_offer string string real
  | Elapsed

text \<open>
  A function with effects returns the events it caused, then either the exit status of
  the process (\<open>log.Fatal\<close> exits with 1, a run-time panic with 2) or its value.
\<close>

type_synonym 'a io = "event list \<times> (int + 'a)"

section \<open>The functions of main.go\<close>

subsection \<open>importConfig\<close>

definition importConfig :: "world \<Rightarrow> Config io" where
  "importConfig w =
     (case os_Open w ''conf.yml'' of
        Inl e \<Rightarrow> ([Open ''conf.yml''], Inl 1)
      | Inr f \<Rightarrow>
          (case yaml_Decode w f of
             Inl e \<Rightarrow> ([Open ''conf.yml''], Inl 1)
           | Inr config \<Rightarrow> ([Open ''conf.yml''], Inr config)))"

subsection \<open>lookup\_flight\_time\<close>

text \<open>The arguments of the duration probe (lines 80 to 95).\<close>

definition lookup_flight_time_Args :: "world \<Rightarrow> string \<Rightarrow> string \<Rightarrow> Args" where
  "lookup_flight_time_Args w src dst =
     \<lparr>Date = AddDate w (time_Now w) 0 1 0,
      Args.ReturnDate = AddDate w (time_Now w) 0 1 7,
      Args.SrcCities = [src],
      Args.DstCities = [dst],
      Args.Options =
        \<lparr>Options.Travelers = \<lparr>Adults = 1\<rparr>, Currency = USD, Stops = Stop2,
         Class = Economy, TripType = RoundTrip, Lang = English\<rparr>\<rparr>"

text \<open>The loop of lines 101 to 106, with \<open>bestDuration\<close> as its accumulator.\<close>

fun bestDuration_loop :: "FullOffer \<Rightarrow> FullOffer list \<Rightarrow> FullOffer" where
  "bestDuration_loop bestDuration [] = bestDuration"
| "bestDuration_loop bestDuration (offer # offers) =
     bestDuration_loop
       (if FlightDuration offer \<noteq> 0 \<and>
           (FlightDuration bestDuration = 0 \<or>
            FlightDuration offer < FlightDuration bestDuration)
        then offer else bestDuration)
       offers"

text \<open>The function returns a duration and an error, and the error it returns is always nil.\<close>

definition lookup_flight_time :: "world \<Rightarrow> string \<Rightarrow> string \<Rightarrow> (Duration \<times> err option) io" where
  "lookup_flight_time w src dst =
     (let args = lookup_flight_time_Args w src dst in
      case GetOffers w args of
        Inl e \<Rightarrow> ([Call_GetOffers args], Inl 1)
      | Inr offers \<Rightarrow>
          ([Call_GetOffers args],
           Inr (FlightDuration (bestDuration_loop zero_FullOffer offers), None)))"

subsection \<open>GetFlightClass\<close>

definition GetFlightClass :: "world \<Rightarrow> string \<Rightarrow> string \<Rightarrow> Class io" where
  "GetFlightClass w src dst =
     (case lookup_flight_time w src dst of
        (evs, Inl status) \<Rightarrow> (evs, Inl status)
      | (evs, Inr (flight_time, Some e)) \<Rightarrow> (evs, Inl 1)
      | (evs, Inr (flight_time, None)) \<Rightarrow>
          (evs,
           Inr (if flight_time < 6 * Hour then Economy
                else if flight_time \<ge> 6 * Hour \<and> flight_time < 10 * Hour then PremiumEconomy
                else Business)))"

subsection \<open>GetActualOffers\<close>

text \<open>The loop of lines 151 to 156, with \<open>bestOffer\<close> as its accumulator.\<close>

fun bestOffer_loop :: "FullOffer \<Rightarrow> FullOffer list \<Rightarrow> FullOffer" where
  "bestOffer_loop bestOffer [] = bestOffer"
| "bestOffer_loop bestOffer (offer # offers) =
     bestOffer_loop
       (if Price bestOffer = 0 \<or> Price offer < Price bestOffer then offer else bestOffer)
       offers"

text \<open>
  The call, the loop and the line the function prints. The goroutine is scheduled in two
  steps (the call, then the print), so the line is this function's value.
\<close>

definition GetActualOffers ::
    "world \<Rightarrow> Offer \<Rightarrow> PriceGraphArgs \<Rightarrow> string \<Rightarrow> string \<Rightarrow> line io" where
  "GetActualOffers w priceGraphOffer Req src dst =
     (let args =
        \<lparr>Date = StartDate priceGraphOffer,
         Args.ReturnDate = Offer.ReturnDate priceGraphOffer,
         Args.SrcCities = PriceGraphArgs.SrcCities Req,
         Args.DstCities = PriceGraphArgs.DstCities Req,
         Args.Options = PriceGraphArgs.Options Req\<rparr> in
      case GetOffers w args of
        Inl e \<Rightarrow> ([Call_GetOffers args], Inl 1)
      | Inr offers \<Rightarrow>
          ([Call_GetOffers args],
           Inr (Best_offer src dst (Price (bestOffer_loop zero_FullOffer offers)))))"

section \<open>Goroutines\<close>

text \<open>
  The program runs one main goroutine, one \<open>Processor\<close> goroutine per attendee and one
  \<open>GetActualOffers\<close> goroutine per candidate date pair. Each is a small state machine
  that takes one step at a time; a step holds at most one interaction with the outside
  (a service call, a channel operation, a print). A schedule is the list of goroutines
  picked to step next, and every statement about runs is about every schedule. Picking a
  goroutine that is blocked, or one that does not exist, changes nothing.

  A \<open>GetActualOffers\<close> goroutine is either about to call the service, or holds the line
  it is about to print. The goroutines a worker has started are kept with the worker:
  their number is the counter of its wait group \<open>lg\<close>.
\<close>

datatype fetcher =
    FCall Offer PriceGraphArgs string string
  | FPrint line

text \<open>
  A \<open>Processor\<close> is blocked receiving from the channel, or holds the query \<open>Req\<close> it
  received, or holds \<open>Req\<close> with its class assigned (and \<open>src\<close>, \<open>dst\<close>), or waits
  in \<open>lg.Wait()\<close>, or has returned.
\<close>

datatype worker =
    WRecv
  | WClass PriceGraphArgs
  | WGraph PriceGraphArgs string string
  | WWait "fetcher list"
  | WDone

text \<open>
  The main goroutine, once the loop over the attendees is reached: at the top of an
  iteration with the attendees still to go, blocked sending \<open>args\<close>, waiting in
  \<open>ProcessorWg.Wait()\<close> after closing the channel, or returned.
\<close>

datatype main_pc =
    MLoop "Attendee list"
  | MSend PriceGraphArgs "Attendee list"
  | MWait
  | MReturn

record state =
  pc :: main_pc
  baseArgs :: PriceGraphArgs
  workers :: "worker list"
  stdout :: "line list"
  events :: "event list"
  status :: "int option"

datatype goroutine = Main | Worker nat | Fetcher nat nat

subsection \<open>main\<close>

text \<open>The state in which the process has exited before any goroutine was started.\<close>

definition exited :: "event list \<Rightarrow> int \<Rightarrow> state" where
  "exited evs code =
     \<lparr>pc = MReturn,
      baseArgs =
        \<lparr>RangeStartDate = 0, RangeEndDate = 0, TripLength = 0,
         PriceGraphArgs.SrcCities = [], PriceGraphArgs.DstCities = [],
         PriceGraphArgs.Options =
           \<lparr>Options.Travelers = \<lparr>Adults = 0\<rparr>, Currency = Currency_unset, Stops = Nonstop,
            Class = Class_unset, TripType = TripType_unset, Lang = Lang_unset\<rparr>\<rparr>,
      workers = [], stdout = [], events = evs, status = Some code\<rparr>"

text \<open>Lines 181 to 234 of \<open>main\<close>: everything before the loop over the attendees.\<close>

definition main_init :: "world \<Rightarrow> flags \<Rightarrow> state" where
  "main_init w fl =
     (if destination fl = '''' \<or> startDate fl = '''' \<or> endDate fl = '''' \<or> nights fl = 0
      then exited [] 1
      else
        (case importConfig w of
           (evs, Inl code) \<Rightarrow> exited evs code
         | (evs, Inr config) \<Rightarrow>
             (case flights_New w of
                Inl e \<Rightarrow> exited (evs @ [New_session]) 1
              | Inr session \<Rightarrow>
                  (case time_Parse w ''2006-01-02'' (startDate fl) of
                     Inl e \<Rightarrow> exited (evs @ [New_session]) 1
                   | Inr startDateParsed \<Rightarrow>
                       (case time_Parse w ''2006-01-02'' (endDate fl) of
                          Inl e \<Rightarrow> exited (evs @ [New_session]) 1
                        | Inr endDateParsed \<Rightarrow>
                            \<lparr>pc = MLoop (Attendees config),
                             baseArgs =
                               \<lparr>RangeStartDate = startDateParsed,
                                RangeEndDate = endDateParsed,
                                TripLength = nights fl,
                                PriceGraphArgs.SrcCities = [],
                                PriceGraphArgs.DstCities = [destination fl],
                                PriceGraphArgs.Options =
                                  \<lparr>Options.Travelers = \<lparr>Adults = 0\<rparr>, Currency = USD,
                                   Stops = Stop2, Class = Class_unset,
                                   TripType = RoundTrip, Lang = English\<rparr>\<rparr>,
                             workers = [], stdout = [],
                             events = evs @ [New_session], status = None\<rparr>)))))"

text \<open>
  One step of the main goroutine in the loop of lines 235 to 241 and after it. An
  iteration builds \<open>args\<close>, starts a \<open>Processor\<close> and blocks in the send; the send itself
  is the step of the worker that receives. After the last iteration the channel is closed.
  \<open>ProcessorWg.Wait()\<close> returns once every \<open>Processor\<close> has returned; then the elapsed
  time is printed and the process exits with status 0.
\<close>

definition main_step :: "state \<Rightarrow> state" where
  "main_step s =
     (case pc s of
        MLoop [] \<Rightarrow> s\<lparr>pc := MWait\<rparr>
      | MLoop (source # rest) \<Rightarrow>
          (let args = (baseArgs s)
                 \<lparr>PriceGraphArgs.SrcCities := [City source],
                  PriceGraphArgs.Options :=
                    (PriceGraphArgs.Options (baseArgs s))
                      \<lparr>Options.Travelers := \<lparr>Adults = Attendee.Travelers source\<rparr>\<rparr>\<rparr>
           in s\<lparr>workers := workers s @ [WRecv], pc := MSend args rest\<rparr>)
      | MSend args rest \<Rightarrow> s
      | MWait \<Rightarrow>
          (if list_all (\<lambda>p. p = WDone) (workers s)
           then s\<lparr>stdout := stdout s @ [Elapsed], pc := MReturn, status := Some 0\<rparr>
           else s)
      | MReturn \<Rightarrow> s)"

subsection \<open>Processor\<close>

text \<open>
  One step of the \<open>i\<close>-th \<open>Processor\<close>.
  Receiving: takes the query the main goroutine is sending, or returns if the channel is
  closed. With a query: reads \<open>src\<close> and \<open>dst\<close> (an empty slice panics), calls
  \<open>GetFlightClass\<close> and assigns the class. With the class assigned: calls
  \<open>GetPriceGraph\<close> and starts one \<open>GetActualOffers\<close> per offer returned. Waiting:
  goes back to receiving once all of them are done.
\<close>

definition Processor_step :: "world \<Rightarrow> nat \<Rightarrow> state \<Rightarrow> state" where
  "Processor_step w i s =
     (if i \<ge> length (workers s) then s
      else
        (case workers s ! i of
           WRecv \<Rightarrow>
             (case pc s of
                MSend args rest \<Rightarrow>
                  s\<lparr>workers := (workers s)[i := WClass args], pc := MLoop rest,
                    events := events s @ [Send args]\<rparr>
              | MWait \<Rightarrow> s\<lparr>workers := (workers s)[i := WDone]\<rparr>
              | MLoop rest \<Rightarrow> s
              | MReturn \<Rightarrow> s)
         | WClass Req \<Rightarrow>
             (case (PriceGraphArgs.SrcCities Req, PriceGraphArgs.DstCities Req) of
                (src # _, dst # _) \<Rightarrow>
                  (case GetFlightClass w src dst of
                     (evs, Inl code) \<Rightarrow> s\<lparr>events := events s @ evs, status := Some code\<rparr>
                   | (evs, Inr class) \<Rightarrow>
                       s\<lparr>workers :=
                           (workers s)
                             [i := WGraph
                                (Req\<lparr>PriceGraphArgs.Options :=
                                       (PriceGraphArgs.Options Req)\<lparr>Class := class\<rparr>\<rparr>)
                                src dst],
                         events := events s @ evs\<rparr>)
              | _ \<Rightarrow> s\<lparr>status := Some 2\<rparr>)
         | WGraph Req src dst \<Rightarrow>
             (case GetPriceGraph w Req of
                Inl e \<Rightarrow> s\<lparr>events := events s @ [Call_GetPriceGraph Req], status := Some 1\<rparr>
              | Inr priceGraphOffers \<Rightarrow>
                  s\<lparr>workers :=
                      (workers s)
                        [i := WWait (map (\<lambda>priceGraphOffer. FCall priceGraphOffer Req src dst)
                                       priceGraphOffers)],
                    events := events s @ [Call_GetPriceGraph Req]\<rparr>)
         | WWait lg \<Rightarrow> (if lg = [] then s\<lparr>workers := (workers s)[i := WRecv]\<rparr> else s)
         | WDone \<Rightarrow> s))"

text \<open>
  One step of the \<open>j\<close>-th \<open>GetActualOffers\<close> goroutine of the \<open>i\<close>-th \<open>Processor\<close>:
  the service call with the reduction, or the print followed by \<open>lg.Done()\<close>.
\<close>

definition GetActualOffers_step :: "world \<Rightarrow> nat \<Rightarrow> nat \<Rightarrow> state \<Rightarrow> state" where
  "GetActualOffers_step w i j s =
     (if i \<ge> length (workers s) then s
      else
        (case workers s ! i of
           WWait lg \<Rightarrow>
             (if j \<ge> length lg then s
              else
                (case lg ! j of
                   FCall priceGraphOffer Req src dst \<Rightarrow>
                     (case GetActualOffers w priceGraphOffer Req src dst of
                        (evs, Inl code) \<Rightarrow> s\<lparr>events := events s @ evs, status := Some code\<rparr>
                      | (evs, Inr l) \<Rightarrow>
                          s\<lparr>workers := (workers s)[i := WWait (lg[j := FPrint l])],
                            events := events s @ evs\<rparr>)
                 | FPrint l \<Rightarrow>
                     s\<lparr>workers := (workers s)[i := WWait (take j lg @ drop (Suc j) lg)],
                       stdout := stdout s @ [l]\<rparr>))
         | _ \<Rightarrow> s))"

subsection \<open>Runs\<close>

text \<open>Once the process has exited nothing steps.\<close>

definition step :: "world \<Rightarrow> goroutine \<Rightarrow> state \<Rightarrow> state" where
  "step w g s =
     (if status s \<noteq> None then s
      else
        (case g of
           Main \<Rightarrow> main_step s
         | Worker i \<Rightarrow> Processor_step w i s
         | Fetcher i j \<Rightarrow> GetActualOffers_step w i j s))"

fun run :: "world \<Rightarrow> goroutine list \<Rightarrow> state \<Rightarrow> state" where
  "run w [] s = s"
| "run w (g # sched) s = run w sched (step w g s)"

text \<open>The program: the state it is in after the schedule.\<close>

definition main :: "world \<Rightarrow> flags \<Rightarrow> goroutine list \<Rightarrow> state" where
  "main w fl sched = run w sched (main_init w fl)"


section \<open>Notions used in the statements\<close>

text \<open>The queries handed over on the channel, and the queries of the price-graph calls.\<close>

fun sent :: "event list \<Rightarrow> PriceGraphArgs list" where
  "sent [] = []"
| "sent (Send q # evs) = q # sent evs"
| "sent (_ # evs) = sent evs"

fun price_graph_calls :: "event list \<Rightarrow> PriceGraphArgs list" where
  "price_graph_calls [] = []"
| "price_graph_calls (Call_GetPriceGraph q # evs) = q # price_graph_calls evs"
| "price_graph_calls (_ # evs) = price_graph_calls evs"


fun is_Best_offer :: "line \<Rightarrow> bool" where
  "is_Best_offer (Best_offer src dst price) = True"
| "is_Best_offer Elapsed = False"


text \<open>The service call of an event returned an error.\<close>

fun failed :: "world \<Rightarrow> event \<Rightarrow> bool" where
  "failed w (Call_GetOffers args) = isl (GetOffers w args)"
| "failed w (Call_GetPriceGraph q) = isl (GetPriceGraph w q)"
| "failed w _ = False"

text \<open>The same world, with other classification rules in the configuration file.\<close>

definition with_Rules :: "Rules \<Rightarrow> world \<Rightarrow> world" where
  "with_Rules rules w =
     w\<lparr>yaml_Decode :=
         (\<lambda>f. case yaml_Decode w f of
                 Inl e \<Rightarrow> Inl e
               | Inr config \<Rightarrow> Inr (config\<lparr>Rules := rules\<rparr>))\<rparr>"

text \<open>The flight durations of the offers that have one.\<close>

definition nonzero_durations :: "FullOffer list \<Rightarrow> Duration list" where
  "nonzero_durations offers = filter (\<lambda>d. d \<noteq> 0) (map FlightDuration offers)"

subsection \<open>Invariants of a run\<close>









text \<open>
  Frame: \<open>q\<close> is \<open>q0\<close> with nothing but the class assigned, and the class is the one
  \<open>GetFlightClass\<close> returns for the first origin and destination of \<open>q0\<close>.
\<close>

definition class_assigned :: "world \<Rightarrow> PriceGraphArgs \<Rightarrow> PriceGraphArgs \<Rightarrow> bool" where
  "class_assigned w q0 q \<longleftrightarrow>
     q = q0\<lparr>PriceGraphArgs.Options :=
              (PriceGraphArgs.Options q0)\<lparr>Class := Class (PriceGraphArgs.Options q)\<rparr>\<rparr> \<and>
     (case (PriceGraphArgs.SrcCities q0, PriceGraphArgs.DstCities q0) of
        (src # _, dst # _) \<Rightarrow>
          snd (GetFlightClass w src dst) = Inr (Class (PriceGraphArgs.Options q))
      | _ \<Rightarrow> False)"

fun worker_frame :: "world \<Rightarrow> PriceGraphArgs list \<Rightarrow> worker \<Rightarrow> bool" where
  "worker_frame w qs (WClass Req) = (Req \<in> set qs)"
| "worker_frame w qs (WGraph Req src dst) = (\<exists>q0 \<in> set qs. class_assigned w q0 Req)"
| "worker_frame w qs _ = True"

definition frame :: "world \<Rightarrow> state \<Rightarrow> bool" where
  "frame w s \<longleftrightarrow>
     (\<forall>q \<in> set (price_graph_calls (events s)).
        \<exists>q0 \<in> set (sent (events s)). class_assigned w q0 q) \<and>
     list_all (worker_frame w (sent (events s))) (workers s)"

subsection \<open>Progress of a run\<close>










subsection \<open>What a worker has received\<close>

text \<open>
  These follow one worker through a run, from outside the step functions. The query a
  worker holds in its variable \<open>Req\<close>; the query main is sending at the step in which
  worker \<open>i\<close> receives; and whether a step changes the query worker \<open>i\<close> holds.
\<close>

fun held :: "worker \<Rightarrow> PriceGraphArgs option" where
  "held (WClass Req) = Some Req"
| "held (WGraph Req src dst) = Some Req"
| "held _ = None"

definition receives :: "nat \<Rightarrow> goroutine \<Rightarrow> state \<Rightarrow> PriceGraphArgs option" where
  "receives i g s =
     (if g = Worker i \<and> status s = None \<and> i < length (workers s) \<and> workers s ! i = WRecv
      then (case pc s of MSend args rest \<Rightarrow> Some args | _ \<Rightarrow> None)
      else None)"

definition writes :: "world \<Rightarrow> nat \<Rightarrow> goroutine \<Rightarrow> state \<Rightarrow> bool" where
  "writes w i g s \<longleftrightarrow>
     i < length (workers s) \<and> i < length (workers (step w g s)) \<and>
     (case (held (workers s ! i), held (workers (step w g s) ! i)) of
        (Some Req, Some Req') \<Rightarrow> Req' \<noteq> Req
      | _ \<Rightarrow> False)"

text \<open>
  The query worker \<open>i\<close> last received and the number of steps that have changed the
  query it holds since: set by a step in which it receives, counted up by a step that
  changes its query.
\<close>

definition observe ::
    "world \<Rightarrow> nat \<Rightarrow> goroutine \<Rightarrow> state \<Rightarrow> (PriceGraphArgs \<times> nat) option \<Rightarrow>
     (PriceGraphArgs \<times> nat) option" where
  "observe w i g s c =
     (case receives i g s of
        Some args \<Rightarrow> Some (args, 0)
      | None \<Rightarrow>
          (case c of
             None \<Rightarrow> None
           | Some (q0, n) \<Rightarrow> Some (q0, if writes w i g s then Suc n else n)))"

fun consumed ::
    "world \<Rightarrow> nat \<Rightarrow> goroutine list \<Rightarrow> state \<Rightarrow> (PriceGraphArgs \<times> nat) option \<Rightarrow>
     (PriceGraphArgs \<times> nat) option" where
  "consumed w i [] s c = c"
| "consumed w i (g # sched) s c = consumed w i sched (step w g s) (observe w i g s c)"

text \<open>
  What a run keeps true of worker \<open>i\<close>: a query it holds unassigned is the one it
  received, unchanged; a query it holds assigned is the one it received with the class
  assigned, changed by one step. Queries are built and sent without a class.
\<close>

definition unset_class :: "state \<Rightarrow> bool" where
  "unset_class s \<longleftrightarrow>
     Class (PriceGraphArgs.Options (baseArgs s)) = Class_unset \<and>
     (case pc s of
        MSend args rest \<Rightarrow> Class (PriceGraphArgs.Options args) = Class_unset
      | _ \<Rightarrow> True)"

fun tracks_worker ::
    "world \<Rightarrow> PriceGraphArgs list \<Rightarrow> (PriceGraphArgs \<times> nat) option \<Rightarrow> worker \<Rightarrow> bool" where
  "tracks_worker w qs c (WClass Req) =
     (c = Some (Req, 0) \<and> Class (PriceGraphArgs.Options Req) = Class_unset \<and> Req \<in> set qs)"
| "tracks_worker w qs c (WGraph Req src dst) =
     (\<exists>q0 \<in> set qs. c = Some (q0, 1) \<and> class_assigned w q0 Req)"
| "tracks_worker w qs c _ = True"

definition tracks :: "world \<Rightarrow> nat \<Rightarrow> state \<Rightarrow> (PriceGraphArgs \<times> nat) option \<Rightarrow> bool" where
  "tracks w i s c \<longleftrightarrow>
     unset_class s \<and>
     (i < length (workers s) \<longrightarrow> tracks_worker w (sent (events s)) c (workers s ! i))"

section \<open>A concrete scenario\<close>

text \<open>
  Two attendees, NYC with one traveler and LAX with two, fly to IST between 2025-02-02 and
  2025-02-07 for six nights. The calendar counts days, a month being 30 of them, and the
  clock stands at 0, so the duration probe asks for day 30.
\<close>

definition offer_of :: "real \<Rightarrow> Duration \<Rightarrow> FullOffer" where
  "offer_of p d = \<lparr>StartDate = 0, Offer.ReturnDate = 0, Price = p, FlightDuration = d\<rparr>"

definition scenario_config :: Config where
  "scenario_config =
     \<lparr>Rules = \<lparr>BusinessMinHrs = 10, PremiumMinHrs = 6\<rparr>,
      Attendees = [\<lparr>City = ''NYC'', Attendee.Travelers = 1\<rparr>,
                   \<lparr>City = ''LAX'', Attendee.Travelers = 2\<rparr>]\<rparr>"

definition scenario_flags :: flags where
  "scenario_flags =
     \<lparr>destination = ''IST'', startDate = ''2025-02-02'', endDate = ''2025-02-07'',
      nights = 6\<rparr>"

definition scenario_world ::
    "(Args \<Rightarrow> err + FullOffer list) \<Rightarrow> (PriceGraphArgs \<Rightarrow> err + Offer list) \<Rightarrow> world" where
  "scenario_world offers graph =
     \<lparr>os_Open = (\<lambda>name. Inr ''rules and attendees''),
      yaml_Decode = (\<lambda>f. Inr scenario_config),
      flights_New = Inr (),
      time_Parse =
        (\<lambda>layout v. if v = ''2025-02-02'' then Inr 20250202
                     else if v = ''2025-02-07'' then Inr 20250207
                     else Inl ''cannot parse''),
      time_Now = 0,
      AddDate = (\<lambda>t years months days. t + 365 * years + 30 * months + days),
      GetOffers = offers,
      GetPriceGraph = graph\<rparr>"

text \<open>Services: one that always fails, and some that answer.\<close>

definition unreachable :: "'a \<Rightarrow> err + 'b" where
  "unreachable a = Inl ''unreachable''"

definition two_date_pairs :: "PriceGraphArgs \<Rightarrow> err + Offer list" where
  "two_date_pairs q =
     Inr [\<lparr>StartDate = 20250202, Offer.ReturnDate = 20250208, Price = 310\<rparr>,
          \<lparr>StartDate = 20250203, Offer.ReturnDate = 20250209, Price = 290\<rparr>]"

definition offers_lasting :: "Duration list \<Rightarrow> Args \<Rightarrow> err + FullOffer list" where
  "offers_lasting ds a = Inr (map (offer_of 300) ds)"

definition offers_until :: "Time \<Rightarrow> Args \<Rightarrow> err + FullOffer list" where
  "offers_until t a =
     (if Date a \<le> t then Inr [offer_of 300 (8 * Hour)] else Inl ''unreachable'')"

text \<open>The query sent for NYC, and the concrete-offers query of its second date pair.\<close>

definition NYC_query :: PriceGraphArgs where
  "NYC_query =
     \<lparr>RangeStartDate = 20250202, RangeEndDate = 20250207, TripLength = 6,
      PriceGraphArgs.SrcCities = [''NYC''], PriceGraphArgs.DstCities = [''IST''],
      PriceGraphArgs.Options =
        \<lparr>Options.Travelers = \<lparr>Adults = 1\<rparr>, Currency = USD, Stops = Stop2,
         Class = Class_unset, TripType = RoundTrip, Lang = English\<rparr>\<rparr>"

definition NYC_premium :: PriceGraphArgs where
  "NYC_premium =
     NYC_query\<lparr>PriceGraphArgs.Options :=
                 (PriceGraphArgs.Options NYC_query)\<lparr>Class := PremiumEconomy\<rparr>\<rparr>"

definition NYC_second_pair :: Args where
  "NYC_second_pair =
     \<lparr>Date = 20250203, Args.ReturnDate = 20250209,
      Args.SrcCities = [''NYC''], Args.DstCities = [''IST''],
      Args.Options = PriceGraphArgs.Options NYC_premium\<rparr>"

text \<open>The query sent for LAX, and a schedule after which the worker for LAX is about to submit.\<close>

definition LAX_query :: PriceGraphArgs where
  "LAX_query =
     \<lparr>RangeStartDate = 20250202, RangeEndDate = 20250207, TripLength = 6,
      PriceGraphArgs.SrcCities = [''LAX''], PriceGraphArgs.DstCities = [''IST''],
      PriceGraphArgs.Options =
        \<lparr>Options.Travelers = \<lparr>Adults = 2\<rparr>, Currency = USD, Stops = Stop2,
         Class = Class_unset, TripType = RoundTrip, Lang = English\<rparr>\<rparr>"

definition LAX_premium :: PriceGraphArgs where
  "LAX_premium =
     LAX_query\<lparr>PriceGraphArgs.Options :=
                 (PriceGraphArgs.Options LAX_query)\<lparr>Class := PremiumEconomy\<rparr>\<rparr>"

definition LAX_schedule :: "goroutine list" where
  "LAX_schedule = [Main, Worker 0, Main, Worker 1, Main, Worker 0, Worker 1]"

text \<open>
  A schedule that runs the scenario to its end when each price graph holds two date
  pairs: the queries are handed over, the workers probe and query in turn, the four
  \<open>GetActualOffers\<close> goroutines call and print, the workers return, main returns.
\<close>

definition full_schedule :: "goroutine list" where
  "full_schedule =
     [Main, Worker 0, Main, Worker 1, Main,
      Worker 0, Worker 1, Worker 1, Worker 0,
      Fetcher 0 0, Fetcher 1 1, Fetcher 0 0, Fetcher 1 1, Fetcher 0 0, Fetcher 1 0,
      Fetcher 0 0, Fetcher 1 0,
      Worker 0, Worker 1, Worker 0, Worker 1, Main]"

lemmas run_eval = main_def main_init_def importConfig_def step_def main_step_def
  Processor_step_def GetActualOffers_step_def GetFlightClass_def lookup_flight_time_def
  lookup_flight_time_Args_def GetActualOffers_def zero_FullOffer_def exited_def Let_def
  Hour_def offer_of_def scenario_config_def scenario_flags_def scenario_world_def
  two_date_pairs_def offers_lasting_def offers_until_def unreachable_def full_schedule_def
  NYC_query_def NYC_premium_def NYC_second_pair_def LAX_query_def LAX_premium_def
  LAX_schedule_def

section \<open>The two reductions\<close>

lemma nonzero_durations_Nil: "nonzero_durations [] = []"
  by (simp add: nonzero_durations_def)

lemma nonzero_durations_Cons:
  "nonzero_durations (offer # offers) =
     (if FlightDuration offer \<noteq> 0 then FlightDuration offer # nonzero_durations offers
      else nonzero_durations offers)"
  by (simp add: nonzero_durations_def)

lemma Min_insert_below:
  fixes x :: "'a :: linorder"
  assumes "finite A" and "y \<le> x"
  shows "Min (insert x (insert y A)) = Min (insert y A)"
proof -
  have "Min (insert y A) \<le> y" using assms(1) by simp
  then have "min x (Min (insert y A)) = Min (insert y A)" using assms(2) by simp
  then show ?thesis using assms(1) by simp
qed

text \<open>
  What the duration loop computes from any running best: the least of the nonzero
  durations seen, the running best included when it has one.
\<close>

lemma bestDuration_loop_duration:
  "FlightDuration (bestDuration_loop b offers) =
     (if FlightDuration b = 0
      then (if nonzero_durations offers = [] then 0 else Min (set (nonzero_durations offers)))
      else Min (set (FlightDuration b # nonzero_durations offers)))"
proof (induction offers arbitrary: b)
  case Nil
  then show ?case by (simp add: nonzero_durations_Nil)
next
  case (Cons offer offers)
  let ?d = "FlightDuration offer" and ?b = "FlightDuration b"
  let ?D = "set (nonzero_durations offers)"
  have fin: "finite ?D" by simp
  consider (skip) "?d = 0" | (first) "?d \<noteq> 0" "?b = 0"
    | (less) "?d \<noteq> 0" "?b \<noteq> 0" "?d < ?b" | (keep) "?d \<noteq> 0" "?b \<noteq> 0" "\<not> ?d < ?b"
    by blast
  then show ?case
  proof cases
    case skip
    then show ?thesis by (simp add: Cons.IH nonzero_durations_Cons)
  next
    case first
    then show ?thesis by (simp add: Cons.IH nonzero_durations_Cons)
  next
    case less
    then have "Min (insert ?b (insert ?d ?D)) = Min (insert ?d ?D)"
      using Min_insert_below [OF fin, of ?d ?b] by simp
    with less show ?thesis by (simp add: Cons.IH nonzero_durations_Cons)
  next
    case keep
    then have "Min (insert ?d (insert ?b ?D)) = Min (insert ?b ?D)"
      using Min_insert_below [OF fin, of ?b ?d] by simp
    with keep show ?thesis by (simp add: Cons.IH nonzero_durations_Cons insert_commute)
  qed
qed

text \<open>
  Claim C7. Whatever offers the duration probe returns, \<open>lookup_flight_time\<close> returns the
  least nonzero flight duration among them, and the undefined duration 0 when no offer
  has a nonzero duration, the empty list included.
\<close>

theorem lookup_flight_time_min_nonzero:
  assumes "GetOffers w (lookup_flight_time_Args w src dst) = Inr offers"
  shows "snd (lookup_flight_time w src dst) =
           Inr (if nonzero_durations offers = [] then 0
                else Min (set (nonzero_durations offers)), None)"
  using assms
  by (simp add: lookup_flight_time_def Let_def bestDuration_loop_duration zero_FullOffer_def)

text \<open>
  The probe for NYC to IST: offers of 9, 0, 7 and 11 hours give 7 hours; offers without a
  duration, and no offers at all, give 0.
\<close>

theorem lookup_flight_time_min_nonzero_witness:
  "GetOffers (scenario_world (offers_lasting [9 * Hour, 0, 7 * Hour, 11 * Hour]) two_date_pairs)
      (lookup_flight_time_Args
         (scenario_world (offers_lasting [9 * Hour, 0, 7 * Hour, 11 * Hour]) two_date_pairs)
         ''NYC'' ''IST'') =
     Inr (map (offer_of 300) [9 * Hour, 0, 7 * Hour, 11 * Hour]) \<and>
   snd (lookup_flight_time
          (scenario_world (offers_lasting [9 * Hour, 0, 7 * Hour, 11 * Hour]) two_date_pairs)
          ''NYC'' ''IST'') = Inr (7 * Hour, None) \<and>
   snd (lookup_flight_time (scenario_world (offers_lasting [0, 0]) two_date_pairs)
          ''NYC'' ''IST'') = Inr (0, None) \<and>
   snd (lookup_flight_time (scenario_world (offers_lasting []) two_date_pairs)
          ''NYC'' ''IST'') = Inr (0, None)"
  using
    lookup_flight_time_min_nonzero
      [of "scenario_world (offers_lasting [9 * Hour, 0, 7 * Hour, 11 * Hour]) two_date_pairs"
          "''NYC''" "''IST''" "map (offer_of 300) [9 * Hour, 0, 7 * Hour, 11 * Hour]"]
    lookup_flight_time_min_nonzero
      [of "scenario_world (offers_lasting [0, 0]) two_date_pairs"
          "''NYC''" "''IST''" "map (offer_of 300) [0, 0]"]
    lookup_flight_time_min_nonzero
      [of "scenario_world (offers_lasting []) two_date_pairs" "''NYC''" "''IST''" "[]"]
  by (simp add: scenario_world_def offers_lasting_def offer_of_def nonzero_durations_def
      Hour_def)

text \<open>
  Claim C8. The reduction of \<open>GetActualOffers\<close> leaves the zero price on an empty list
  of offers, and on a list of one offer it yields the price of that offer.
\<close>

theorem bestOffer_loop_empty_single:
  "Price (bestOffer_loop zero_FullOffer []) = 0 \<and>
   Price (bestOffer_loop zero_FullOffer [offer]) = Price offer"
  by (simp add: zero_FullOffer_def)

theorem bestOffer_loop_empty_single_witness:
  "Price (bestOffer_loop zero_FullOffer []) = 0 \<and>
   Price (bestOffer_loop zero_FullOffer [offer_of 450 (8 * Hour)]) = 450"
  using bestOffer_loop_empty_single [of "offer_of 450 (8 * Hour)"]
  by (simp add: offer_of_def)

text \<open>
  Where the price loop does yield the least price: on offers that all have a nonzero
  price.
\<close>

lemma bestOffer_loop_nonzero_prices:
  assumes "\<forall>offer \<in> set offers. Price offer \<noteq> 0"
  shows "Price (bestOffer_loop b offers) =
     (if Price b = 0
      then (if offers = [] then 0 else Min (set (map Price offers)))
      else Min (set (Price b # map Price offers)))"
  using assms
proof (induction offers arbitrary: b)
  case Nil
  then show ?case by simp
next
  case (Cons offer offers)
  let ?p = "Price offer" and ?b = "Price b"
  let ?P = "set (map Price offers)"
  have fin: "finite ?P" by simp
  have p: "?p \<noteq> 0" and rest: "\<forall>offer \<in> set offers. Price offer \<noteq> 0"
    using Cons.prems by simp_all
  note IH = Cons.IH [OF rest]
  consider (first) "?b = 0" | (less) "?b \<noteq> 0" "?p < ?b" | (keep) "?b \<noteq> 0" "\<not> ?p < ?b"
    by blast
  then show ?case
  proof cases
    case first
    then show ?thesis using p by (simp add: IH)
  next
    case less
    then have "Min (insert ?b (insert ?p ?P)) = Min (insert ?p ?P)"
      using Min_insert_below [OF fin, of ?p ?b] by simp
    with less p show ?thesis by (simp add: IH)
  next
    case keep
    then have "Min (insert ?p (insert ?b ?P)) = Min (insert ?b ?P)"
      using Min_insert_below [OF fin, of ?b ?p] by simp
    with keep show ?thesis by (simp add: IH insert_commute)
  qed
qed

text \<open>
  Claim C1. The reduction of \<open>GetActualOffers\<close> is to select the least price among the
  offers with a nonzero price, and an offer of price 0 is never to replace a running best
  with a nonzero price. The loop has no test for a zero price of the offer, as the duration
  loop has for a zero duration: on the offers priced 450 and 0 the running best is 450
  after the first and 0 after the second, although an offer with a nonzero price exists.
\<close>

theorem bestOffer_loop_zero_replaces_best:
  "Price (bestOffer_loop zero_FullOffer [offer_of 450 (8 * Hour)]) = 450 \<and>
   Price (bestOffer_loop zero_FullOffer [offer_of 450 (8 * Hour), offer_of 0 (8 * Hour)]) = 0"
  by (simp add: zero_FullOffer_def offer_of_def)

text \<open>
  Claim C3. The reduction of \<open>GetActualOffers\<close> is to yield the same price for every
  order of the offers. For the same reason as above it does not: the offers priced 0 and
  450 give 450 in this order and 0 in the other.
\<close>

theorem bestOffer_loop_order_dependent:
  "Price (bestOffer_loop zero_FullOffer [offer_of 0 (8 * Hour), offer_of 450 (8 * Hour)]) \<noteq>
   Price (bestOffer_loop zero_FullOffer [offer_of 450 (8 * Hour), offer_of 0 (8 * Hour)])"
  by (simp add: zero_FullOffer_def offer_of_def)

section \<open>The class selector\<close>

text \<open>
  Claim C4. For the duration \<open>d\<close> the probe yields, \<open>GetFlightClass\<close> returns Economy if
  \<open>d\<close> is less than 6 hours, Premium Economy from 6 hours and below 10, and Business
  from 10 hours; so 6 hours is Premium Economy, 10 hours is Business, and the undefined
  duration 0 is Economy.
\<close>

theorem GetFlightClass_thresholds:
  assumes "snd (lookup_flight_time w src dst) = Inr (d, None)"
  shows "snd (GetFlightClass w src dst) =
           Inr (if d < 6 * Hour then Economy
                else if d < 10 * Hour then PremiumEconomy
                else Business) \<and>
         (d = 6 * Hour \<longrightarrow> snd (GetFlightClass w src dst) = Inr PremiumEconomy) \<and>
         (d = 10 * Hour \<longrightarrow> snd (GetFlightClass w src dst) = Inr Business) \<and>
         (d = 0 \<longrightarrow> snd (GetFlightClass w src dst) = Inr Economy)"
  using assms
  by (auto simp: GetFlightClass_def Hour_def split: prod.splits sum.splits option.splits)

text \<open>Probes of exactly 6 hours, exactly 10 hours, one nanosecond less than each, and 0.\<close>

theorem GetFlightClass_thresholds_witness:
  "snd (lookup_flight_time (scenario_world (offers_lasting [6 * Hour]) two_date_pairs)
          ''NYC'' ''IST'') = Inr (6 * Hour, None) \<and>
   snd (GetFlightClass (scenario_world (offers_lasting [6 * Hour]) two_date_pairs)
          ''NYC'' ''IST'') = Inr PremiumEconomy \<and>
   snd (GetFlightClass (scenario_world (offers_lasting [10 * Hour]) two_date_pairs)
          ''NYC'' ''IST'') = Inr Business \<and>
   snd (GetFlightClass (scenario_world (offers_lasting [6 * Hour - 1]) two_date_pairs)
          ''NYC'' ''IST'') = Inr Economy \<and>
   snd (GetFlightClass (scenario_world (offers_lasting [10 * Hour - 1]) two_date_pairs)
          ''NYC'' ''IST'') = Inr PremiumEconomy \<and>
   snd (GetFlightClass (scenario_world (offers_lasting [0]) two_date_pairs)
          ''NYC'' ''IST'') = Inr Economy"
  using
    GetFlightClass_thresholds
      [of "scenario_world (offers_lasting [6 * Hour]) two_date_pairs"
          "''NYC''" "''IST''" "6 * Hour"]
    GetFlightClass_thresholds
      [of "scenario_world (offers_lasting [10 * Hour]) two_date_pairs"
          "''NYC''" "''IST''" "10 * Hour"]
    GetFlightClass_thresholds
      [of "scenario_world (offers_lasting [6 * Hour - 1]) two_date_pairs"
          "''NYC''" "''IST''" "6 * Hour - 1"]
    GetFlightClass_thresholds
      [of "scenario_world (offers_lasting [10 * Hour - 1]) two_date_pairs"
          "''NYC''" "''IST''" "10 * Hour - 1"]
    GetFlightClass_thresholds
      [of "scenario_world (offers_lasting [0]) two_date_pairs" "''NYC''" "''IST''" 0]
  by (simp add: lookup_flight_time_def lookup_flight_time_Args_def Let_def zero_FullOffer_def
      scenario_world_def offers_lasting_def offer_of_def Hour_def)

section \<open>Start-up\<close>

lemma run_exited: "status s \<noteq> None \<Longrightarrow> run w sched s = s"
  by (induction sched) (simp_all add: step_def)

lemma step_events: "\<exists>evs. events (step w g s) = events s @ evs"
  by (cases g)
    (auto simp: step_def main_step_def Processor_step_def GetActualOffers_step_def Let_def
      split: main_pc.splits list.splits worker.splits fetcher.splits prod.splits sum.splits)

lemma run_events: "\<exists>evs. events (run w sched s) = events s @ evs"
proof (induction sched arbitrary: s)
  case Nil
  then show ?case by simp
next
  case (Cons g sched)
  obtain e1 where "events (step w g s) = events s @ e1" using step_events by blast
  moreover obtain e2 where "events (run w sched (step w g s)) = events (step w g s) @ e2"
    using Cons.IH by blast
  ultimately show ?case by simp
qed

lemma main_init_opens:
  assumes "destination fl \<noteq> ''''" "startDate fl \<noteq> ''''" "endDate fl \<noteq> ''''" "nights fl \<noteq> 0"
  shows "\<exists>evs. events (main_init w fl) = Open ''conf.yml'' # evs"
  using assms
  by (auto simp: main_init_def importConfig_def exited_def split: sum.splits)

text \<open>
  Claim C10. If the destination, the start date or the end date is the empty string, or
  the number of nights is 0, the program exits with status 1 having opened no file, called
  no service and printed nothing, whatever is scheduled. If all four are given, the number
  of nights being any integer but 0, the check passes: the first thing the program does is
  open the configuration file.
\<close>

theorem required_flags:
  "(destination fl = '''' \<or> startDate fl = '''' \<or> endDate fl = '''' \<or> nights fl = 0 \<longrightarrow>
      status (main w fl sched) = Some 1 \<and> events (main w fl sched) = [] \<and>
      stdout (main w fl sched) = []) \<and>
   (destination fl \<noteq> '''' \<and> startDate fl \<noteq> '''' \<and> endDate fl \<noteq> '''' \<and> nights fl \<noteq> 0 \<longrightarrow>
      take 1 (events (main w fl sched)) = [Open ''conf.yml''])"
proof (intro conjI impI)
  assume "destination fl = '''' \<or> startDate fl = '''' \<or> endDate fl = '''' \<or> nights fl = 0"
  then have "main_init w fl = exited [] 1" by (auto simp: main_init_def)
  then have "main w fl sched = exited [] 1"
    by (simp add: main_def run_exited exited_def)
  then show "status (main w fl sched) = Some 1" "events (main w fl sched) = []"
    "stdout (main w fl sched) = []"
    by (simp_all add: exited_def)
next
  assume "destination fl \<noteq> '''' \<and> startDate fl \<noteq> '''' \<and> endDate fl \<noteq> '''' \<and> nights fl \<noteq> 0"
  then obtain e1 where "events (main_init w fl) = Open ''conf.yml'' # e1"
    using main_init_opens by blast
  moreover obtain e2 where "events (main w fl sched) = events (main_init w fl) @ e2"
    unfolding main_def using run_events by blast
  ultimately show "take 1 (events (main w fl sched)) = [Open ''conf.yml'']" by simp
qed

text \<open>The scenario without its number of nights, and with a negative one.\<close>

theorem required_flags_witness:
  "nights (scenario_flags\<lparr>nights := 0\<rparr>) = 0 \<and>
   status (main (scenario_world (offers_lasting [8 * Hour]) two_date_pairs)
             (scenario_flags\<lparr>nights := 0\<rparr>) full_schedule) = Some 1 \<and>
   events (main (scenario_world (offers_lasting [8 * Hour]) two_date_pairs)
             (scenario_flags\<lparr>nights := 0\<rparr>) full_schedule) = [] \<and>
   stdout (main (scenario_world (offers_lasting [8 * Hour]) two_date_pairs)
             (scenario_flags\<lparr>nights := 0\<rparr>) full_schedule) = [] \<and>
   nights (scenario_flags\<lparr>nights := - 3\<rparr>) \<noteq> 0 \<and>
   take 1 (events (main (scenario_world (offers_lasting [8 * Hour]) two_date_pairs)
                     (scenario_flags\<lparr>nights := - 3\<rparr>) full_schedule)) = [Open ''conf.yml'']"
  using
    required_flags
      [of "scenario_flags\<lparr>nights := 0\<rparr>"
          "scenario_world (offers_lasting [8 * Hour]) two_date_pairs" full_schedule]
    required_flags
      [of "scenario_flags\<lparr>nights := - 3\<rparr>"
          "scenario_world (offers_lasting [8 * Hour]) two_date_pairs" full_schedule]
  by (simp add: scenario_flags_def)

section \<open>Failures of the service\<close>

lemma main_step_events: "events (main_step s) = events s"
  by (simp add: main_step_def Let_def split: main_pc.splits list.splits)

lemma Processor_step_failed:
  assumes "events (Processor_step w i s) = events s @ [ev]" and "failed w ev"
  shows "status (Processor_step w i s) = Some 1 \<and> stdout (Processor_step w i s) = stdout s"
  using assms
  by (auto simp: Processor_step_def GetFlightClass_def lookup_flight_time_def Let_def
      split: if_splits worker.splits main_pc.splits list.splits sum.splits)

lemma GetActualOffers_step_failed:
  assumes "events (GetActualOffers_step w i j s) = events s @ [ev]" and "failed w ev"
  shows "status (GetActualOffers_step w i j s) = Some 1 \<and>
         stdout (GetActualOffers_step w i j s) = stdout s"
  using assms
  by (auto simp: GetActualOffers_step_def GetActualOffers_def Let_def
      split: if_splits worker.splits fetcher.splits sum.splits)

text \<open>
  Claim C6. If the service call made in a step returns an error (the duration probe, the
  price graph or the concrete offers), that step exits the process with status 1 and
  prints nothing; after it no schedule changes anything: no line is printed, no call
  is made again, and no other goroutine goes on with its origin.
\<close>

theorem service_error_is_fatal:
  assumes "events (step w g s) = events s @ [ev]" and "failed w ev"
  shows "status (step w g s) = Some 1 \<and> stdout (step w g s) = stdout s \<and>
         (\<forall>sched. run w sched (step w g s) = step w g s)"
proof -
  have running: "status s = None" using assms(1) by (auto simp: step_def split: if_splits)
  have "status (step w g s) = Some 1 \<and> stdout (step w g s) = stdout s"
  proof (cases g)
    case Main
    then show ?thesis using assms running by (simp add: step_def main_step_events)
  next
    case (Worker i)
    then show ?thesis
      using assms running Processor_step_failed [of w i s ev] by (simp add: step_def)
  next
    case (Fetcher i j)
    then show ?thesis
      using assms running GetActualOffers_step_failed [of w i j s ev] by (simp add: step_def)
  qed
  then show ?thesis by (simp add: run_exited)
qed

text \<open>
  The scenario with the probe failing for NYC, with the price graph failing for NYC, and
  with the concrete offers failing for the second date pair of NYC after the line of the
  first has been printed.
\<close>

theorem service_error_is_fatal_witness:
  "(events (step (scenario_world unreachable two_date_pairs) (Worker 0)
             (main (scenario_world unreachable two_date_pairs) scenario_flags
                [Main, Worker 0])) =
      events (main (scenario_world unreachable two_date_pairs) scenario_flags
                [Main, Worker 0]) @
      [Call_GetOffers
         (lookup_flight_time_Args (scenario_world unreachable two_date_pairs)
            ''NYC'' ''IST'')] \<and>
    failed (scenario_world unreachable two_date_pairs)
      (Call_GetOffers
         (lookup_flight_time_Args (scenario_world unreachable two_date_pairs)
            ''NYC'' ''IST'')) \<and>
    status (step (scenario_world unreachable two_date_pairs) (Worker 0)
              (main (scenario_world unreachable two_date_pairs) scenario_flags
                 [Main, Worker 0])) = Some 1) \<and>
   (events (step (scenario_world (offers_lasting [8 * Hour]) unreachable) (Worker 0)
              (main (scenario_world (offers_lasting [8 * Hour]) unreachable) scenario_flags
                 [Main, Worker 0, Worker 0])) =
      events (main (scenario_world (offers_lasting [8 * Hour]) unreachable) scenario_flags
                [Main, Worker 0, Worker 0]) @
      [Call_GetPriceGraph NYC_premium] \<and>
    failed (scenario_world (offers_lasting [8 * Hour]) unreachable)
      (Call_GetPriceGraph NYC_premium) \<and>
    status (step (scenario_world (offers_lasting [8 * Hour]) unreachable) (Worker 0)
              (main (scenario_world (offers_lasting [8 * Hour]) unreachable) scenario_flags
                 [Main, Worker 0, Worker 0])) = Some 1) \<and>
   (events (step (scenario_world (offers_until 20250202) two_date_pairs) (Fetcher 0 0)
              (main (scenario_world (offers_until 20250202) two_date_pairs) scenario_flags
                 [Main, Worker 0, Worker 0, Worker 0, Fetcher 0 0, Fetcher 0 0])) =
      events (main (scenario_world (offers_until 20250202) two_date_pairs) scenario_flags
                [Main, Worker 0, Worker 0, Worker 0, Fetcher 0 0, Fetcher 0 0]) @
      [Call_GetOffers NYC_second_pair] \<and>
    failed (scenario_world (offers_until 20250202) two_date_pairs)
      (Call_GetOffers NYC_second_pair) \<and>
    status (step (scenario_world (offers_until 20250202) two_date_pairs) (Fetcher 0 0)
              (main (scenario_world (offers_until 20250202) two_date_pairs) scenario_flags
                 [Main, Worker 0, Worker 0, Worker 0, Fetcher 0 0, Fetcher 0 0])) = Some 1 \<and>
    stdout (step (scenario_world (offers_until 20250202) two_date_pairs) (Fetcher 0 0)
              (main (scenario_world (offers_until 20250202) two_date_pairs) scenario_flags
                 [Main, Worker 0, Worker 0, Worker 0, Fetcher 0 0, Fetcher 0 0])) =
      [Best_offer ''NYC'' ''IST'' 300] \<and>
    run (scenario_world (offers_until 20250202) two_date_pairs)
      [Fetcher 0 0, Main, Worker 1, Worker 1, Main]
      (step (scenario_world (offers_until 20250202) two_date_pairs) (Fetcher 0 0)
         (main (scenario_world (offers_until 20250202) two_date_pairs) scenario_flags
            [Main, Worker 0, Worker 0, Worker 0, Fetcher 0 0, Fetcher 0 0])) =
      step (scenario_world (offers_until 20250202) two_date_pairs) (Fetcher 0 0)
        (main (scenario_world (offers_until 20250202) two_date_pairs) scenario_flags
           [Main, Worker 0, Worker 0, Worker 0, Fetcher 0 0, Fetcher 0 0]))"
proof (intro conjI)
  let ?w1 = "scenario_world unreachable two_date_pairs"
  let ?s1 = "main ?w1 scenario_flags [Main, Worker 0]"
  let ?e1 = "Call_GetOffers (lookup_flight_time_Args ?w1 ''NYC'' ''IST'')"
  show h1: "events (step ?w1 (Worker 0) ?s1) = events ?s1 @ [?e1]"
    by (simp add: run_eval)
  show f1: "failed ?w1 ?e1"
    by (simp add: run_eval)
  show "status (step ?w1 (Worker 0) ?s1) = Some 1"
    using service_error_is_fatal [OF h1 f1] by simp
  let ?w2 = "scenario_world (offers_lasting [8 * Hour]) unreachable"
  let ?s2 = "main ?w2 scenario_flags [Main, Worker 0, Worker 0]"
  let ?e2 = "Call_GetPriceGraph NYC_premium"
  show h2: "events (step ?w2 (Worker 0) ?s2) = events ?s2 @ [?e2]"
    by (simp add: run_eval)
  show f2: "failed ?w2 ?e2"
    by (simp add: run_eval)
  show "status (step ?w2 (Worker 0) ?s2) = Some 1"
    using service_error_is_fatal [OF h2 f2] by simp
  let ?w3 = "scenario_world (offers_until 20250202) two_date_pairs"
  let ?s3 = "main ?w3 scenario_flags
               [Main, Worker 0, Worker 0, Worker 0, Fetcher 0 0, Fetcher 0 0]"
  let ?e3 = "Call_GetOffers NYC_second_pair"
  show h3: "events (step ?w3 (Fetcher 0 0) ?s3) = events ?s3 @ [?e3]"
    by (simp add: run_eval)
  show f3: "failed ?w3 ?e3"
    by (simp add: run_eval)
  have out: "stdout ?s3 = [Best_offer ''NYC'' ''IST'' 300]"
    by (simp add: run_eval)
  show "status (step ?w3 (Fetcher 0 0) ?s3) = Some 1"
    using service_error_is_fatal [OF h3 f3] by simp
  show "stdout (step ?w3 (Fetcher 0 0) ?s3) = [Best_offer ''NYC'' ''IST'' 300]"
    using service_error_is_fatal [OF h3 f3] out by simp
  show "run ?w3 [Fetcher 0 0, Main, Worker 1, Worker 1, Main] (step ?w3 (Fetcher 0 0) ?s3) =
        step ?w3 (Fetcher 0 0) ?s3"
    using service_error_is_fatal [OF h3 f3] by blast
qed

section \<open>Counting queries and lines\<close>

lemma sent_append: "sent (xs @ ys) = sent xs @ sent ys"
  by (induction xs rule: sent.induct) simp_all

lemma price_graph_calls_append:
  "price_graph_calls (xs @ ys) = price_graph_calls xs @ price_graph_calls ys"
  by (induction xs rule: price_graph_calls.induct) simp_all



lemma list_all_update:
  "list_all P xs \<Longrightarrow> P x \<Longrightarrow> list_all P (xs[i := x])"
  by (induction xs arbitrary: i) (auto split: nat.splits)

lemma list_all_nth: "list_all P xs \<Longrightarrow> i < length xs \<Longrightarrow> P (xs ! i)"
  by (simp add: list_all_length)



text \<open>The two functions that call the service cause one event, a call of \<open>GetOffers\<close>.\<close>

lemma GetFlightClass_events:
  "fst (GetFlightClass w src dst) = [Call_GetOffers (lookup_flight_time_Args w src dst)]"
  by (simp add: GetFlightClass_def lookup_flight_time_def Let_def split: sum.splits)

lemma GetFlightClass_no_send:
  "GetFlightClass w src dst = (evs, r) \<Longrightarrow> sent evs = [] \<and> price_graph_calls evs = []"
  using GetFlightClass_events [of w src dst] by simp

lemma GetActualOffers_no_send:
  "GetActualOffers w priceGraphOffer Req src dst = (evs, r) \<Longrightarrow>
     sent evs = [] \<and> price_graph_calls evs = [] \<and> (\<forall>l. r = Inr l \<longrightarrow> is_Best_offer l)"
  by (auto simp: GetActualOffers_def Let_def split: sum.splits)















section \<open>Runs end\<close>





















section \<open>What a worker does to its query\<close>

lemma worker_frame_mono:
  "worker_frame w qs p \<Longrightarrow> worker_frame w (qs @ qs') p"
  by (cases p) auto

lemma list_all_worker_frame_mono:
  "list_all (worker_frame w qs) ps \<Longrightarrow> list_all (worker_frame w (qs @ qs')) ps"
  by (auto simp: list_all_iff worker_frame_mono)

lemma frame_main_step: "frame w s \<Longrightarrow> frame w (main_step s)"
  by (auto simp: frame_def main_step_def Let_def split: main_pc.splits list.splits)

lemma frame_Processor_step:
  assumes "frame w s"
  shows "frame w (Processor_step w i s)"
proof (cases "i < length (workers s)")
  case False
  then show ?thesis using assms by (simp add: Processor_step_def)
next
  case True
  have calls: "\<forall>q \<in> set (price_graph_calls (events s)).
      \<exists>q0 \<in> set (sent (events s)). class_assigned w q0 q"
    and ws: "list_all (worker_frame w (sent (events s))) (workers s)"
    using assms by (simp_all add: frame_def)
  have here: "worker_frame w (sent (events s)) (workers s ! i)"
    using ws True by (rule list_all_nth)
  show ?thesis
  proof (cases "workers s ! i")
    case WRecv
    show ?thesis
    proof (cases "pc s")
      case (MSend args rest)
      have "list_all (worker_frame w (sent (events s) @ [args]))
          ((workers s)[i := WClass args])"
        using list_all_worker_frame_mono [OF ws, of "[args]"] by (simp add: list_all_update)
      then show ?thesis
        using True WRecv MSend calls
        by (auto simp: frame_def Processor_step_def sent_append price_graph_calls_append)
    next
      case (MLoop rest)
      then show ?thesis using assms True WRecv by (simp add: Processor_step_def)
    next
      case MWait
      then show ?thesis
        using assms True WRecv ws by (simp add: Processor_step_def frame_def list_all_update)
    next
      case MReturn
      then show ?thesis using assms True WRecv by (simp add: Processor_step_def)
    qed
  next
    case (WClass Req)
    show ?thesis
    proof (cases "PriceGraphArgs.SrcCities Req")
      case Nil
      then show ?thesis using assms True WClass by (simp add: Processor_step_def frame_def)
    next
      case src: (Cons src ss)
      show ?thesis
      proof (cases "PriceGraphArgs.DstCities Req")
        case Nil
        then show ?thesis
          using assms True WClass src by (simp add: Processor_step_def frame_def)
      next
        case dst: (Cons dst ds)
        obtain evs r where g: "GetFlightClass w src dst = (evs, r)"
          by (cases "GetFlightClass w src dst")
        note quiet = GetFlightClass_no_send [OF g]
        show ?thesis
        proof (cases r)
          case (Inl code)
          then show ?thesis
            using assms True WClass src dst g quiet
            by (simp add: Processor_step_def frame_def sent_append price_graph_calls_append)
        next
          case (Inr cabin)
          let ?Req = "Req\<lparr>PriceGraphArgs.Options :=
                            (PriceGraphArgs.Options Req)\<lparr>Class := cabin\<rparr>\<rparr>"
          have "Req \<in> set (sent (events s))" using here WClass by simp
          moreover have "class_assigned w Req ?Req"
            using src dst g Inr by (simp add: class_assigned_def)
          ultimately have "worker_frame w (sent (events s)) (WGraph ?Req src dst)" by auto
          then have "list_all (worker_frame w (sent (events s)))
              ((workers s)[i := WGraph ?Req src dst])"
            using ws by (simp add: list_all_update)
          then show ?thesis
            using True WClass src dst g Inr quiet calls
            by (simp add: Processor_step_def frame_def sent_append price_graph_calls_append)
        qed
      qed
    qed
  next
    case (WGraph Req src dst)
    have req: "\<exists>q0 \<in> set (sent (events s)). class_assigned w q0 Req"
      using here WGraph by simp
    show ?thesis
    proof (cases "GetPriceGraph w Req")
      case (Inl e)
      then show ?thesis
        using True WGraph req calls ws
        by (auto simp: Processor_step_def frame_def sent_append price_graph_calls_append)
    next
      case (Inr priceGraphOffers)
      have "list_all (worker_frame w (sent (events s)))
          ((workers s)[i := WWait (map (\<lambda>priceGraphOffer. FCall priceGraphOffer Req src dst)
                                        priceGraphOffers)])"
        using ws by (simp add: list_all_update)
      then show ?thesis
        using True WGraph Inr req calls
        by (auto simp: Processor_step_def frame_def sent_append price_graph_calls_append)
    qed
  next
    case (WWait lg)
    then show ?thesis
      using assms True by (auto simp: Processor_step_def frame_def list_all_update)
  next
    case WDone
    then show ?thesis using assms True by (simp add: Processor_step_def)
  qed
qed

lemma frame_GetActualOffers_step:
  assumes "frame w s"
  shows "frame w (GetActualOffers_step w i j s)"
proof (cases "i < length (workers s)")
  case False
  then show ?thesis using assms by (simp add: GetActualOffers_step_def)
next
  case True
  have ws: "list_all (worker_frame w (sent (events s))) (workers s)"
    using assms by (simp add: frame_def)
  have upd: "list_all (worker_frame w (sent (events s))) ((workers s)[i := WWait lg'])" for lg'
    using ws by (simp add: list_all_update)
  show ?thesis
    using assms True upd
    by (auto simp: GetActualOffers_step_def frame_def sent_append price_graph_calls_append
        dest!: GetActualOffers_no_send
        split: worker.splits fetcher.splits prod.splits sum.splits)
qed

lemma frame_step: "frame w s \<Longrightarrow> frame w (step w g s)"
  by (cases g)
    (simp_all add: step_def frame_main_step frame_Processor_step frame_GetActualOffers_step)

lemma frame_run: "frame w s \<Longrightarrow> frame w (run w sched s)"
  by (induction sched arbitrary: s) (simp_all add: frame_step)

lemma frame_main_init: "frame w (main_init w fl)"
  by (auto simp: frame_def main_init_def exited_def importConfig_def
      split: sum.splits prod.splits)

text \<open>
  Every query in a price-graph call of a run is a query that was sent, with its class
  assigned and nothing else changed.
\<close>

lemma submitted_queries_were_sent:
  assumes "q \<in> set (price_graph_calls (events (main w fl sched)))"
  shows "\<exists>q0 \<in> set (sent (events (main w fl sched))).
           q = q0\<lparr>PriceGraphArgs.Options :=
                    (PriceGraphArgs.Options q0)\<lparr>Class := Class (PriceGraphArgs.Options q)\<rparr>\<rparr> \<and>
           (case (PriceGraphArgs.SrcCities q0, PriceGraphArgs.DstCities q0) of
              (src # _, dst # _) \<Rightarrow>
                snd (GetFlightClass w src dst) = Inr (Class (PriceGraphArgs.Options q))
            | _ \<Rightarrow> False) \<and>
           PriceGraphArgs.SrcCities q = PriceGraphArgs.SrcCities q0 \<and>
           PriceGraphArgs.DstCities q = PriceGraphArgs.DstCities q0 \<and>
           RangeStartDate q = RangeStartDate q0 \<and>
           RangeEndDate q = RangeEndDate q0 \<and>
           TripLength q = TripLength q0"
proof -
  have "frame w (main w fl sched)"
    unfolding main_def by (rule frame_run [OF frame_main_init])
  then obtain q0 where q0: "q0 \<in> set (sent (events (main w fl sched)))"
    and a: "class_assigned w q0 q"
    using assms by (auto simp: frame_def)
  let ?c = "Class (PriceGraphArgs.Options q)"
  have eq: "q = q0\<lparr>PriceGraphArgs.Options := (PriceGraphArgs.Options q0)\<lparr>Class := ?c\<rparr>\<rparr>"
    and cabin: "(case (PriceGraphArgs.SrcCities q0, PriceGraphArgs.DstCities q0) of
              (src # _, dst # _) \<Rightarrow> snd (GetFlightClass w src dst) = Inr ?c
            | _ \<Rightarrow> False)"
    using a by (simp_all add: class_assigned_def)
  have "PriceGraphArgs.SrcCities q = PriceGraphArgs.SrcCities q0"
    and "PriceGraphArgs.DstCities q = PriceGraphArgs.DstCities q0"
    and "RangeStartDate q = RangeStartDate q0"
    and "RangeEndDate q = RangeEndDate q0"
    and "TripLength q = TripLength q0"
    by (subst eq, simp)+
  with q0 eq cabin show ?thesis by blast
qed

section \<open>What a worker does to the query it received\<close>

lemma GetFlightClass_cabin:
  "GetFlightClass w src dst = (evs, Inr cabin) \<Longrightarrow> cabin \<noteq> Class_unset"
  by (auto simp: GetFlightClass_def split: prod.splits sum.splits option.splits if_splits)

lemma observe_unchanged:
  "receives i g s = None \<Longrightarrow> \<not> writes w i g s \<Longrightarrow> observe w i g s c = c"
  by (cases c) (auto simp: observe_def)

lemma tracks_worker_mono:
  "tracks_worker w qs c p \<Longrightarrow> tracks_worker w (qs @ qs') c p"
  by (cases p) auto

lemma unset_class_step: "unset_class s \<Longrightarrow> unset_class (step w g s)"
  by (cases g)
    (auto simp: unset_class_def step_def main_step_def Processor_step_def
      GetActualOffers_step_def Let_def
      split: main_pc.splits list.splits worker.splits fetcher.splits prod.splits sum.splits)

lemma step_workers_length: "length (workers s) \<le> length (workers (step w g s))"
  by (cases g)
    (auto simp: step_def main_step_def Processor_step_def GetActualOffers_step_def Let_def
      split: main_pc.splits list.splits worker.splits fetcher.splits prod.splits sum.splits)

lemma step_sent: "\<exists>qs. sent (events (step w g s)) = sent (events s) @ qs"
  using step_events [of w g s] by (auto simp: sent_append)

text \<open>A step of main or of another worker leaves the worker alone.\<close>

lemma main_step_worker:
  "i < length (workers s) \<Longrightarrow> workers (main_step s) ! i = workers s ! i"
  by (auto simp: main_step_def Let_def nth_append split: main_pc.splits list.splits)

lemma main_step_new_worker:
  "i < length (workers (main_step s)) \<Longrightarrow> \<not> i < length (workers s) \<Longrightarrow>
    workers (main_step s) ! i = WRecv"
  by (auto simp: main_step_def Let_def nth_append split: main_pc.splits list.splits if_splits)

lemma Processor_step_other:
  "k \<noteq> i \<Longrightarrow> workers (Processor_step w k s) ! i = workers s ! i"
  by (auto simp: Processor_step_def
      split: worker.splits main_pc.splits list.splits prod.splits sum.splits)

lemma Processor_step_length: "length (workers (Processor_step w k s)) = length (workers s)"
  by (auto simp: Processor_step_def
      split: worker.splits main_pc.splits list.splits prod.splits sum.splits)

lemma GetActualOffers_step_length:
  "length (workers (GetActualOffers_step w k j s)) = length (workers s)"
  by (auto simp: GetActualOffers_step_def
      split: worker.splits fetcher.splits prod.splits sum.splits)

lemma GetActualOffers_step_worker:
  "workers (GetActualOffers_step w k j s) ! i = workers s ! i \<or>
   (\<exists>lg lg'. workers s ! i = WWait lg \<and> workers (GetActualOffers_step w k j s) ! i = WWait lg')"
  by (cases "k = i")
    (auto simp: GetActualOffers_step_def
      split: worker.splits fetcher.splits prod.splits sum.splits)

text \<open>The worker's own steps.\<close>

lemma tracks_own_step:
  assumes u: "unset_class s" and t: "tracks_worker w (sent (events s)) c (workers s ! i)"
    and running: "status s = None" and i: "i < length (workers s)"
  shows "tracks_worker w (sent (events (Processor_step w i s)))
           (observe w i (Worker i) s c) (workers (Processor_step w i s) ! i)"
proof (cases "workers s ! i")
  case WRecv
  show ?thesis
  proof (cases "pc s")
    case (MSend args rest)
    then have "receives i (Worker i) s = Some args"
      using running i WRecv by (simp add: receives_def)
    then show ?thesis
      using u i WRecv MSend
      by (simp add: observe_def Processor_step_def unset_class_def sent_append)
  next
    case (MLoop rest)
    then show ?thesis using i WRecv by (simp add: Processor_step_def)
  next
    case MWait
    then show ?thesis using i WRecv by (simp add: Processor_step_def)
  next
    case MReturn
    then show ?thesis using i WRecv by (simp add: Processor_step_def)
  qed
next
  case (WClass Req)
  have c: "c = Some (Req, 0)" and unset: "Class (PriceGraphArgs.Options Req) = Class_unset"
    and was_sent: "Req \<in> set (sent (events s))"
    using t WClass by simp_all
  have no_recv: "receives i (Worker i) s = None"
    using WClass by (simp add: receives_def)
  show ?thesis
  proof (cases "\<exists>src ss dst ds evs cabin. PriceGraphArgs.SrcCities Req = src # ss \<and>
      PriceGraphArgs.DstCities Req = dst # ds \<and> GetFlightClass w src dst = (evs, Inr cabin)")
    case True
    then obtain src ss dst ds evs cabin where src: "PriceGraphArgs.SrcCities Req = src # ss"
      and dst: "PriceGraphArgs.DstCities Req = dst # ds"
      and g: "GetFlightClass w src dst = (evs, Inr cabin)"
      by blast
    let ?Req = "Req\<lparr>PriceGraphArgs.Options := (PriceGraphArgs.Options Req)\<lparr>Class := cabin\<rparr>\<rparr>"
    have after: "workers (Processor_step w i s) ! i = WGraph ?Req src dst"
      and evs: "events (Processor_step w i s) = events s @ evs"
      using i WClass src dst g by (simp_all add: Processor_step_def)
    have "Class (PriceGraphArgs.Options ?Req) \<noteq> Class (PriceGraphArgs.Options Req)"
      using unset GetFlightClass_cabin [OF g] by simp
    then have "?Req \<noteq> Req" by metis
    then have "writes w i (Worker i) s"
      using running i WClass after by (simp add: writes_def step_def Processor_step_length)
    then have obs: "observe w i (Worker i) s c = Some (Req, 1)"
      using no_recv c by (simp add: observe_def)
    have "class_assigned w Req ?Req"
      using src dst g by (simp add: class_assigned_def)
    then show ?thesis
      using after evs obs was_sent by (auto simp: sent_append)
  next
    case False
    then have same: "workers (Processor_step w i s) = workers s"
      and evs: "\<exists>evs. events (Processor_step w i s) = events s @ evs"
      using i WClass
      by (auto simp: Processor_step_def split: list.splits prod.splits sum.splits)
    have "\<not> writes w i (Worker i) s"
      using running same WClass by (simp add: writes_def step_def)
    then have "observe w i (Worker i) s c = c"
      using no_recv by (rule observe_unchanged [rotated])
    then show ?thesis
      using same evs t tracks_worker_mono [of w "sent (events s)" c "workers s ! i"]
      by (auto simp: sent_append)
  qed
next
  case (WGraph Req src dst)
  have no_recv: "receives i (Worker i) s = None"
    using WGraph by (simp add: receives_def)
  have after: "workers (Processor_step w i s) ! i = WGraph Req src dst \<or>
      (\<exists>lg. workers (Processor_step w i s) ! i = WWait lg)"
    and evs: "\<exists>evs. events (Processor_step w i s) = events s @ evs"
    using i WGraph by (auto simp: Processor_step_def split: sum.splits)
  have "\<not> writes w i (Worker i) s"
    using running i WGraph after by (auto simp: writes_def step_def)
  then have "observe w i (Worker i) s c = c"
    using no_recv by (rule observe_unchanged [rotated])
  then show ?thesis
    using after evs t WGraph tracks_worker_mono [of w "sent (events s)" c "workers s ! i"]
    by (auto simp: sent_append)
next
  case (WWait lg)
  then have "workers (Processor_step w i s) ! i = WWait lg \<or>
      workers (Processor_step w i s) ! i = WRecv"
    using i by (auto simp: Processor_step_def)
  then show ?thesis by auto
next
  case WDone
  then show ?thesis using i by (simp add: Processor_step_def)
qed

text \<open>Every step keeps it.\<close>

lemma tracks_step:
  assumes "tracks w i s c"
  shows "tracks w i (step w g s) (observe w i g s c)"
proof -
  have u: "unset_class s" using assms by (simp add: tracks_def)
  have u': "unset_class (step w g s)" using u by (rule unset_class_step)
  obtain qs where qs: "sent (events (step w g s)) = sent (events s) @ qs"
    using step_sent by blast
  have "tracks_worker w (sent (events (step w g s))) (observe w i g s c) (workers (step w g s) ! i)"
    if after: "i < length (workers (step w g s))"
  proof (cases "status s = None")
    case False
    then have same: "step w g s = s" by (simp add: step_def)
    have "receives i g s = None" using False by (auto simp: receives_def)
    moreover have "\<not> writes w i g s"
      using same by (auto simp: writes_def split: option.splits)
    ultimately have "observe w i g s c = c" by (rule observe_unchanged)
    then show ?thesis using assms after same by (simp add: tracks_def)
  next
    case running: True
    show ?thesis
    proof (cases "i < length (workers s)")
      case False
      then have "g = Main"
        using after running Processor_step_length [of w _ s]
          GetActualOffers_step_length [of w _ _ s]
        by (cases g) (simp_all add: step_def)
      then have "workers (step w g s) ! i = WRecv"
        using after False running main_step_new_worker [of i s] by (simp add: step_def)
      then show ?thesis by simp
    next
      case i: True
      then have t: "tracks_worker w (sent (events s)) c (workers s ! i)"
        using assms by (simp add: tracks_def)
      show ?thesis
      proof (cases "g = Worker i")
        case True
        then show ?thesis
          using tracks_own_step [OF u t running i] running by (simp add: step_def)
      next
        case other: False
        have no_recv: "receives i g s = None" using other by (simp add: receives_def)
        have w': "workers (step w g s) ! i = workers s ! i \<or>
            (\<exists>lg lg'. workers s ! i = WWait lg \<and> workers (step w g s) ! i = WWait lg')"
        proof (cases g)
          case Main
          then show ?thesis using running i main_step_worker [of i s] by (simp add: step_def)
        next
          case (Worker k)
          then show ?thesis
            using running other Processor_step_other [of k i w s] by (simp add: step_def)
        next
          case (Fetcher k j)
          then show ?thesis
            using running GetActualOffers_step_worker [of w k j s i] by (simp add: step_def)
        qed
        then have "\<not> writes w i g s" by (auto simp: writes_def split: option.splits)
        then have "observe w i g s c = c" using no_recv by (rule observe_unchanged [rotated])
        then show ?thesis
          using w' t qs tracks_worker_mono [of w "sent (events s)" c "workers s ! i" qs]
          by auto
      qed
    qed
  qed
  then show ?thesis using u' by (simp add: tracks_def)
qed

lemma tracks_run:
  "tracks w i s c \<Longrightarrow> tracks w i (run w sched s) (consumed w i sched s c)"
  by (induction sched arbitrary: s c) (simp_all add: tracks_step)

lemma tracks_main_init: "tracks w i (main_init w fl) None"
  by (auto simp: tracks_def unset_class_def main_init_def exited_def importConfig_def
      split: sum.splits prod.splits)

text \<open>Only the step of a worker that holds a query with its class assigned calls the price graph.\<close>

lemma step_calls_price_graph:
  assumes "events (step w g s) = events s @ [Call_GetPriceGraph q]"
  shows "\<exists>i src dst. g = Worker i \<and> i < length (workers s) \<and> workers s ! i = WGraph q src dst"
proof (cases g)
  case Main
  then show ?thesis using assms by (simp add: step_def main_step_events split: if_splits)
next
  case (Worker i)
  then show ?thesis
    using assms
    by (auto simp: step_def Processor_step_def GetFlightClass_def lookup_flight_time_def Let_def
        split: if_splits worker.splits main_pc.splits list.splits sum.splits)
next
  case (Fetcher i j)
  then show ?thesis
    using assms
    by (auto simp: step_def GetActualOffers_step_def GetActualOffers_def Let_def
        split: if_splits worker.splits fetcher.splits sum.splits)
qed

text \<open>
  Claim C9. Whenever a step of a run submits a query \<open>q\<close> to the price graph, the step is
  one of a worker; the query that worker last received is one main sent, \<open>q0\<close>; exactly
  one step has changed the query the worker holds since it received it; and \<open>q\<close> is
  \<open>q0\<close> with \<open>Options.Class\<close> set, to the class \<open>GetFlightClass\<close> returns for the
  origin and destination of \<open>q0\<close>: origin, destination, date range and trip length are
  those of \<open>q0\<close>.
\<close>

theorem only_class_assigned:
  assumes "events (step w g (main w fl sched)) =
             events (main w fl sched) @ [Call_GetPriceGraph q]"
  shows "\<exists>i q0. g = Worker i \<and>
           consumed w i sched (main_init w fl) None = Some (q0, 1) \<and>
           q0 \<in> set (sent (events (main w fl sched))) \<and>
           q = q0\<lparr>PriceGraphArgs.Options :=
                    (PriceGraphArgs.Options q0)\<lparr>Class := Class (PriceGraphArgs.Options q)\<rparr>\<rparr> \<and>
           (case (PriceGraphArgs.SrcCities q0, PriceGraphArgs.DstCities q0) of
              (src # _, dst # _) \<Rightarrow>
                snd (GetFlightClass w src dst) = Inr (Class (PriceGraphArgs.Options q))
            | _ \<Rightarrow> False) \<and>
           PriceGraphArgs.SrcCities q = PriceGraphArgs.SrcCities q0 \<and>
           PriceGraphArgs.DstCities q = PriceGraphArgs.DstCities q0 \<and>
           RangeStartDate q = RangeStartDate q0 \<and>
           RangeEndDate q = RangeEndDate q0 \<and>
           TripLength q = TripLength q0"
proof -
  let ?s = "main w fl sched"
  obtain i src dst where g: "g = Worker i" and i: "i < length (workers ?s)"
    and holds: "workers ?s ! i = WGraph q src dst"
    using step_calls_price_graph [OF assms] by blast
  have "tracks w i ?s (consumed w i sched (main_init w fl) None)"
    unfolding main_def by (rule tracks_run [OF tracks_main_init])
  then obtain q0 where q0: "q0 \<in> set (sent (events ?s))"
    and c: "consumed w i sched (main_init w fl) None = Some (q0, 1)"
    and a: "class_assigned w q0 q"
    using i holds by (auto simp: tracks_def)
  let ?c = "Class (PriceGraphArgs.Options q)"
  have eq: "q = q0\<lparr>PriceGraphArgs.Options := (PriceGraphArgs.Options q0)\<lparr>Class := ?c\<rparr>\<rparr>"
    and cabin: "(case (PriceGraphArgs.SrcCities q0, PriceGraphArgs.DstCities q0) of
              (src # _, dst # _) \<Rightarrow> snd (GetFlightClass w src dst) = Inr ?c
            | _ \<Rightarrow> False)"
    using a by (simp_all add: class_assigned_def)
  have "PriceGraphArgs.SrcCities q = PriceGraphArgs.SrcCities q0"
    and "PriceGraphArgs.DstCities q = PriceGraphArgs.DstCities q0"
    and "RangeStartDate q = RangeStartDate q0"
    and "RangeEndDate q = RangeEndDate q0"
    and "TripLength q = TripLength q0"
    by (subst eq, simp)+
  with g c q0 eq cabin show ?thesis by blast
qed

text \<open>
  In the scenario, after both queries are handed over and both classes assigned, the
  step of the second worker submits the query for LAX: the query that worker received,
  changed by one step, with the class Premium Economy of an 8-hour flight.
\<close>

theorem only_class_assigned_witness:
  "events (step (scenario_world (offers_lasting [8 * Hour]) two_date_pairs) (Worker 1)
             (main (scenario_world (offers_lasting [8 * Hour]) two_date_pairs)
                scenario_flags LAX_schedule)) =
     events (main (scenario_world (offers_lasting [8 * Hour]) two_date_pairs)
               scenario_flags LAX_schedule) @ [Call_GetPriceGraph LAX_premium] \<and>
   consumed (scenario_world (offers_lasting [8 * Hour]) two_date_pairs) 1 LAX_schedule
     (main_init (scenario_world (offers_lasting [8 * Hour]) two_date_pairs) scenario_flags)
     None = Some (LAX_query, 1) \<and>
   LAX_query \<in>
     set (sent (events (main (scenario_world (offers_lasting [8 * Hour]) two_date_pairs)
                          scenario_flags LAX_schedule))) \<and>
   LAX_premium =
     LAX_query\<lparr>PriceGraphArgs.Options :=
                 (PriceGraphArgs.Options LAX_query)\<lparr>Class := PremiumEconomy\<rparr>\<rparr> \<and>
   PriceGraphArgs.SrcCities LAX_premium = [''LAX'']"
proof -
  let ?w = "scenario_world (offers_lasting [8 * Hour]) two_date_pairs"
  let ?s = "main ?w scenario_flags LAX_schedule"
  have submits: "events (step ?w (Worker 1) ?s) = events ?s @ [Call_GetPriceGraph LAX_premium]"
    by (simp add: run_eval LAX_schedule_def LAX_premium_def LAX_query_def)
  have received: "consumed ?w 1 LAX_schedule (main_init ?w scenario_flags) None =
      Some (LAX_query, 1)"
    by (simp add: run_eval LAX_schedule_def LAX_query_def observe_def receives_def writes_def)
  obtain i q0 where "Worker 1 = Worker i"
    and "consumed ?w i LAX_schedule (main_init ?w scenario_flags) None = Some (q0, 1)"
    and sent: "q0 \<in> set (sent (events ?s))"
    and eq: "LAX_premium =
      q0\<lparr>PriceGraphArgs.Options :=
           (PriceGraphArgs.Options q0)\<lparr>Class := Class (PriceGraphArgs.Options LAX_premium)\<rparr>\<rparr>"
    and src: "PriceGraphArgs.SrcCities LAX_premium = PriceGraphArgs.SrcCities q0"
    using only_class_assigned [OF submits] by blast
  then have q0: "q0 = LAX_query" using received by simp
  have "Class (PriceGraphArgs.Options LAX_premium) = PremiumEconomy"
    and "PriceGraphArgs.SrcCities LAX_query = [''LAX'']"
    by (simp_all add: LAX_premium_def LAX_query_def)
  then show ?thesis
    using submits received sent eq src q0 by simp
qed

section \<open>The configured rules\<close>

lemma GetFlightClass_with_Rules:
  "GetFlightClass (with_Rules rules w) src dst = GetFlightClass w src dst"
  by (simp add: with_Rules_def GetFlightClass_def lookup_flight_time_def
      lookup_flight_time_Args_def)

lemma GetActualOffers_with_Rules:
  "GetActualOffers (with_Rules rules w) priceGraphOffer Req src dst =
   GetActualOffers w priceGraphOffer Req src dst"
  by (simp add: with_Rules_def GetActualOffers_def)

lemma GetPriceGraph_with_Rules: "GetPriceGraph (with_Rules rules w) = GetPriceGraph w"
  by (simp add: with_Rules_def)

lemma step_with_Rules: "step (with_Rules rules w) g s = step w g s"
  unfolding step_def Processor_step_def GetActualOffers_step_def
    GetFlightClass_with_Rules GetActualOffers_with_Rules GetPriceGraph_with_Rules
  by (rule refl)

lemma run_with_Rules: "run (with_Rules rules w) sched s = run w sched s"
  by (induction sched arbitrary: s) (simp_all add: step_with_Rules)

lemma main_init_with_Rules: "main_init (with_Rules rules w) fl = main_init w fl"
  by (simp add: with_Rules_def main_init_def importConfig_def split: sum.splits)

text \<open>
  Claim C5. Two configurations that differ only in \<open>rules.business_min_hrs\<close> and
  \<open>rules.premium_min_hrs\<close> give the same class: whatever rules the configuration file
  holds instead, \<open>GetFlightClass\<close> returns the same for the same probe, and the whole run
  (the classes assigned, the calls made, the lines printed) is the same under every
  schedule.
\<close>

theorem rules_ignored:
  "GetFlightClass (with_Rules rules w) src dst = GetFlightClass w src dst \<and>
   main (with_Rules rules w) fl sched = main w fl sched"
  by (simp add: main_def run_with_Rules main_init_with_Rules GetFlightClass_with_Rules)

text \<open>
  The scenario with a business class threshold of 1 hour and a premium threshold of 2: an
  8-hour flight is still Premium Economy, and the query for NYC is still submitted with
  this class.
\<close>

theorem rules_ignored_witness:
  "Rules (scenario_config\<lparr>Rules := \<lparr>BusinessMinHrs = 1, PremiumMinHrs = 2\<rparr>\<rparr>) \<noteq>
     Rules scenario_config \<and>
   yaml_Decode
     (with_Rules \<lparr>BusinessMinHrs = 1, PremiumMinHrs = 2\<rparr>
        (scenario_world (offers_lasting [8 * Hour]) two_date_pairs)) ''rules and attendees'' =
     Inr (scenario_config\<lparr>Rules := \<lparr>BusinessMinHrs = 1, PremiumMinHrs = 2\<rparr>\<rparr>) \<and>
   snd (GetFlightClass
          (with_Rules \<lparr>BusinessMinHrs = 1, PremiumMinHrs = 2\<rparr>
             (scenario_world (offers_lasting [8 * Hour]) two_date_pairs))
          ''NYC'' ''IST'') = Inr PremiumEconomy \<and>
   NYC_premium \<in>
     set (price_graph_calls
            (events (main (with_Rules \<lparr>BusinessMinHrs = 1, PremiumMinHrs = 2\<rparr>
                             (scenario_world (offers_lasting [8 * Hour]) two_date_pairs))
                       scenario_flags full_schedule)))"
proof -
  let ?w = "scenario_world (offers_lasting [8 * Hour]) two_date_pairs"
  let ?r = "\<lparr>BusinessMinHrs = 1, PremiumMinHrs = 2\<rparr>"
  have "Rules (scenario_config\<lparr>Rules := ?r\<rparr>) \<noteq> Rules scenario_config"
    by (simp add: scenario_config_def)
  moreover have "yaml_Decode (with_Rules ?r ?w) ''rules and attendees'' =
      Inr (scenario_config\<lparr>Rules := ?r\<rparr>)"
    by (simp add: with_Rules_def scenario_world_def)
  moreover have "snd (GetFlightClass ?w ''NYC'' ''IST'') = Inr PremiumEconomy"
    by (simp add: run_eval)
  moreover have "NYC_premium \<in> set (price_graph_calls (events (main ?w scenario_flags full_schedule)))"
    by (simp add: run_eval)
  ultimately show ?thesis
    using rules_ignored [of ?r ?w "''NYC''" "''IST''" scenario_flags full_schedule]
    by simp
qed

end
